theory Spec2Isabelle
  imports Main
begin

section \<open>JavaScript containers used by StepsForm\<close>

text \<open>
  A JavaScript \<^verbatim>\<open>Map\<close> iterates in insertion order: \<^verbatim>\<open>set\<close> on a key that is
  present replaces the value where the entry stands, \<^verbatim>\<open>set\<close> on a new key appends,
  \<^verbatim>\<open>delete\<close> removes the entry. It is modelled as an association list in iteration
  order. A plain object (\<^verbatim>\<open>Record<string, any>\<close>) is the same structure: assigning
  \<^verbatim>\<open>obj[key]\<close> keeps the position of an existing key.
\<close>

type_synonym ('k, 'a) jsmap = "('k \<times> 'a) list"

type_synonym 'v obj = "(string, 'v) jsmap"

fun js_has :: "('k, 'a) jsmap \<Rightarrow> 'k \<Rightarrow> bool" where
  "js_has [] k = False"
| "js_has ((k', a) # m) k = (if k' = k then True else js_has m k)"

fun js_get :: "('k, 'a) jsmap \<Rightarrow> 'k \<Rightarrow> 'a option" where
  "js_get [] k = None"
| "js_get ((k', a) # m) k = (if k' = k then Some a else js_get m k)"

fun js_set :: "('k, 'a) jsmap \<Rightarrow> 'k \<Rightarrow> 'a \<Rightarrow> ('k, 'a) jsmap" where
  "js_set [] k v = [(k, v)]"
| "js_set ((k', a) # m) k v = (if k' = k then (k, v) # m else (k', a) # js_set m k v)"

fun js_delete :: "('k, 'a) jsmap \<Rightarrow> 'k \<Rightarrow> ('k, 'a) jsmap" where
  "js_delete [] k = []"
| "js_delete ((k', a) # m) k = (if k' = k then js_delete m k else (k', a) # js_delete m k)"

definition js_keys :: "('k, 'a) jsmap \<Rightarrow> 'k list" where
  "js_keys m = map fst m"

definition js_values :: "('k, 'a) jsmap \<Rightarrow> 'a list" where
  "js_values m = map snd m"

text \<open>
  Modelled from the spec: \<^verbatim>\<open>merge\<close> of \<^verbatim>\<open>@ant-design/pro-utils\<close> is imported by
  StepsForm and its body is not part of the sources at hand. The specification describes
  it as a shallow merge in which the last record wins on a key collision: every own key
  of every argument, taken in argument order, is assigned into one fresh object.
\<close>

fun assign_all :: "'v obj \<Rightarrow> 'v obj \<Rightarrow> 'v obj" where
  "assign_all target [] = target"
| "assign_all target ((k, v) # src) = assign_all (js_set target k v) src"

definition merge :: "'v obj list \<Rightarrow> 'v obj" where
  "merge rest = foldl assign_all [] rest"

section \<open>Props and state of the wizard\<close>

text \<open>
  The promise returned by \<^verbatim>\<open>onFinish\<close> (\<^verbatim>\<open>Promise<boolean | void>\<close>) is
  represented by the way it settles: it resolves with \<^verbatim>\<open>true\<close>, \<^verbatim>\<open>false\<close> or
  nothing, or it rejects. A handler that throws before returning is seen by the
  \<^verbatim>\<open>await\<close> inside \<^verbatim>\<open>try\<close> exactly as a rejection.
\<close>

datatype 'e outcome = Resolves "bool option" | Rejects 'e

fun truthy :: "bool option \<Rightarrow> bool" where
  "truthy (Some b) = b"
| "truthy None = False"

text \<open>The part of antd's \<^verbatim>\<open>ButtonProps\<close> that a spread can override on the buttons.\<close>

record buttonProps =
  bp_type :: "string option"
  bp_loading :: "bool option"

record submitterProps =
  submitButtonProps :: "buttonProps option"
  resetButtonProps :: "buttonProps option"

datatype submitter = SubmitterFalse | SubmitterUndefined | Submitter submitterProps

record ('v, 'e) stepsFormProps =
  current :: "int option"
  onCurrentChange :: bool
  onFinish :: "('v obj \<Rightarrow> 'e outcome) option"
  submitter :: submitter

text \<open>
  The refs and the React state of one StepsForm instance. \<open>'c\<close> is \<^verbatim>\<open>StepFormProps\<close>,
  \<open>'f\<close> is antd's \<^verbatim>\<open>FormInstance\<close>. The last three fields record what leaves the
  component: the arguments of every \<^verbatim>\<open>onFinish\<close> call, every \<^verbatim>\<open>console.log\<close>
  and every \<^verbatim>\<open>onCurrentChange\<close> notification.
\<close>

record ('v, 'e, 'c, 'f) wizard =
  formDataRef :: "(string, 'v obj) jsmap"
  formMapRef :: "(string, 'c) jsmap"
  formArrayRef :: "'f option list"
  formArray :: "string list"
  loading :: bool
  innerStep :: int
  finishCalls :: "'v obj list"
  console :: "'e list"
  currentChanges :: "int list"

definition init :: "('v, 'e, 'c, 'f) wizard" where
  "init = \<lparr> formDataRef = [], formMapRef = [], formArrayRef = [], formArray = [],
            loading = False, innerStep = 0, finishCalls = [], console = [],
            currentChanges = [] \<rparr>"

section \<open>Step cursor\<close>

text \<open>
  Modelled from the spec: \<^verbatim>\<open>useMergedState\<close> of \<^verbatim>\<open>rc-util\<close> is imported and
  its body is not part of the sources at hand. The specification describes a controlled
  mode, where the index is set from outside (\<^verbatim>\<open>props.current\<close>) and a change is only
  requested from the listener, and an uncontrolled mode, where the component owns the
  value and notifies the listener on change.
\<close>

definition step :: "('v, 'e) stepsFormProps \<Rightarrow> ('v, 'e, 'c, 'f) wizard \<Rightarrow> int" where
  "step P s = (case current P of Some c \<Rightarrow> c | None \<Rightarrow> innerStep s)"

definition setStep ::
  "('v, 'e) stepsFormProps \<Rightarrow> int \<Rightarrow> ('v, 'e, 'c, 'f) wizard \<Rightarrow> ('v, 'e, 'c, 'f) wizard" where
  "setStep P v s =
     (let s' = (case current P of Some c \<Rightarrow> s | None \<Rightarrow> s\<lparr>innerStep := v\<rparr>)
      in if onCurrentChange P \<and> step P s \<noteq> v
         then s'\<lparr>currentChanges := currentChanges s' @ [v]\<rparr> else s')"

definition setLoading :: "bool \<Rightarrow> ('v, 'e, 'c, 'f) wizard \<Rightarrow> ('v, 'e, 'c, 'f) wizard" where
  "setLoading b s = s\<lparr>loading := b\<rparr>"

definition lastStep :: "('v, 'e) stepsFormProps \<Rightarrow> ('v, 'e, 'c, 'f) wizard \<Rightarrow> bool" where
  "lastStep P s = (step P s = int (length (formArray s)) - 1)"

section \<open>Step registry\<close>

definition regForm :: "string \<Rightarrow> 'c \<Rightarrow> ('v, 'e, 'c, 'f) wizard \<Rightarrow> ('v, 'e, 'c, 'f) wizard" where
  "regForm name childrenFormProps s =
     (let s' = (if \<not> js_has (formMapRef s) name
                then s\<lparr>formArray := formArray s @ [name]\<rparr> else s)
      in s'\<lparr>formMapRef := js_set (formMapRef s') name childrenFormProps\<rparr>)"

definition unRegForm :: "string \<Rightarrow> ('v, 'e, 'c, 'f) wizard \<Rightarrow> ('v, 'e, 'c, 'f) wizard" where
  "unRegForm name s =
     s\<lparr> formArray := filter (\<lambda>n. n = name) (formArray s),
        formMapRef := js_delete (formMapRef s) name,
        formDataRef := js_delete (formDataRef s) name \<rparr>"

section \<open>Navigation\<close>

definition prePage ::
  "('v, 'e) stepsFormProps \<Rightarrow> ('v, 'e, 'c, 'f) wizard \<Rightarrow> ('v, 'e, 'c, 'f) wizard" where
  "prePage P s = (if step P s < 1 then s else setStep P (step P s - 1) s)"

definition nextPage ::
  "('v, 'e) stepsFormProps \<Rightarrow> ('v, 'e, 'c, 'f) wizard \<Rightarrow> ('v, 'e, 'c, 'f) wizard" where
  "nextPage P s =
     (if step P s > int (length (formArray s)) - 2 then s else setStep P (step P s + 1) s)"

datatype nav = GoNext | GoPrevious

fun navigate ::
  "('v, 'e) stepsFormProps \<Rightarrow> ('v, 'e, 'c, 'f) wizard \<Rightarrow> nav \<Rightarrow> ('v, 'e, 'c, 'f) wizard" where
  "navigate P s GoNext = nextPage P s"
| "navigate P s GoPrevious = prePage P s"

definition navigate_all ::
  "('v, 'e) stepsFormProps \<Rightarrow> nav list \<Rightarrow> ('v, 'e, 'c, 'f) wizard \<Rightarrow> ('v, 'e, 'c, 'f) wizard" where
  "navigate_all P evs s = foldl (navigate P) s evs"

definition valid_cursor :: "('v, 'e) stepsFormProps \<Rightarrow> ('v, 'e, 'c, 'f) wizard \<Rightarrow> bool" where
  "valid_cursor P s =
     ((formArray s = [] \<and> step P s = 0) \<or>
      (0 \<le> step P s \<and> step P s < int (length (formArray s))))"

section \<open>Action buttons\<close>

record button =
  btn_key :: string
  btn_type :: "string option"
  btn_loading :: bool

text \<open>The spread \<^verbatim>\<open>{...props}\<close> written after the button's own attributes.\<close>

definition spread :: "buttonProps option \<Rightarrow> button \<Rightarrow> button" where
  "spread ps b =
     (case ps of
        None \<Rightarrow> b
      | Some p \<Rightarrow>
          b\<lparr> btn_type := (case bp_type p of None \<Rightarrow> btn_type b | Some t \<Rightarrow> Some t),
             btn_loading := (case bp_loading p of None \<Rightarrow> btn_loading b | Some l \<Rightarrow> l) \<rparr>)"

fun submitButtonProps_of :: "submitter \<Rightarrow> buttonProps option" where
  "submitButtonProps_of (Submitter sp) = submitButtonProps sp"
| "submitButtonProps_of _ = None"

fun resetButtonProps_of :: "submitter \<Rightarrow> buttonProps option" where
  "resetButtonProps_of (Submitter sp) = resetButtonProps sp"
| "resetButtonProps_of _ = None"

text \<open>\<^verbatim>\<open>submitter !== false && <Button ...>\<close>: \<open>None\<close> is the value \<^verbatim>\<open>false\<close>.
  The source's \<^verbatim>\<open>next\<close> is named \<open>next_button\<close> here, \<open>next\<close> being an Isar keyword.\<close>

definition next_button :: "('v, 'e) stepsFormProps \<Rightarrow> ('v, 'e, 'c, 'f) wizard \<Rightarrow> button option" where
  "next_button P s =
     (if submitter P = SubmitterFalse then None
      else Some (spread (submitButtonProps_of (submitter P))
             \<lparr> btn_key = ''next'', btn_type = Some ''primary'', btn_loading = loading s \<rparr>))"

definition pre :: "('v, 'e) stepsFormProps \<Rightarrow> ('v, 'e, 'c, 'f) wizard \<Rightarrow> button option" where
  "pre P s =
     (if submitter P = SubmitterFalse then None
      else Some (spread (resetButtonProps_of (submitter P))
             \<lparr> btn_key = ''pre'', btn_type = None, btn_loading = False \<rparr>))"

definition submit :: "('v, 'e) stepsFormProps \<Rightarrow> ('v, 'e, 'c, 'f) wizard \<Rightarrow> button option" where
  "submit P s =
     (if submitter P = SubmitterFalse then None
      else Some (spread (submitButtonProps_of (submitter P))
             \<lparr> btn_key = ''submit'', btn_type = Some ''primary'', btn_loading = loading s \<rparr>))"

definition getActionButton ::
  "('v, 'e) stepsFormProps \<Rightarrow> ('v, 'e, 'c, 'f) wizard \<Rightarrow> button option list" where
  "getActionButton P s =
     (let index = (if step P s = 0 then 0 else step P s)
      in if index < 1 then [next_button P s]
         else if index + 1 = int (length (formArray s)) then [pre P s, submit P s]
         else [pre P s, next_button P s])"

section \<open>Submission pipeline\<close>

text \<open>
  Computations that may throw: the result is \<open>Inl\<close> the thrown value or \<open>Inr\<close> the
  returned one, next to the state reached. \<open>try_catch_finally\<close> is JavaScript's
  statement: the catch block runs on a throw of the body, the finally block runs in every
  case, and a throw that nobody caught leaves the statement after the finally block.
\<close>

type_synonym ('s, 'e, 'a) comp = "'s \<Rightarrow> ('e + 'a) \<times> 's"

definition returns :: "'a \<Rightarrow> ('s, 'e, 'a) comp" where
  "returns a s = (Inr a, s)"

definition throws :: "'e \<Rightarrow> ('s, 'e, 'a) comp" where
  "throws e s = (Inl e, s)"

definition modify :: "('s \<Rightarrow> 's) \<Rightarrow> ('s, 'e, unit) comp" where
  "modify f s = (Inr (), f s)"

definition then_do :: "('s, 'e, 'a) comp \<Rightarrow> ('a \<Rightarrow> ('s, 'e, 'b) comp) \<Rightarrow> ('s, 'e, 'b) comp" where
  "then_do m f s = (case m s of (Inl e, s') \<Rightarrow> (Inl e, s') | (Inr a, s') \<Rightarrow> f a s')"

definition try_catch_finally ::
  "('s, 'e, 'a) comp \<Rightarrow> ('e \<Rightarrow> ('s, 'e, 'a) comp) \<Rightarrow> ('s, 'e, unit) comp \<Rightarrow> ('s, 'e, 'a) comp" where
  "try_catch_finally body catch fin s =
     (case (case body s of (Inl e, s1) \<Rightarrow> catch e s1 | (Inr a, s1) \<Rightarrow> (Inr a, s1)) of
        (r, s2) \<Rightarrow> (case fin s2 of (Inl e, s3) \<Rightarrow> (Inl e, s3) | (Inr u, s3) \<Rightarrow> (r, s3)))"

text \<open>\<^verbatim>\<open>await\<close> of a promise that settles as \<open>r\<close>.\<close>

fun await :: "'e outcome \<Rightarrow> ('s, 'e, bool option) comp" where
  "await (Resolves v) = returns v"
| "await (Rejects e) = throws e"

definition console_log :: "'e \<Rightarrow> ('v, 'e, 'c, 'f) wizard \<Rightarrow> ('v, 'e, 'c, 'f) wizard" where
  "console_log error s = s\<lparr>console := console s @ [error]\<rparr>"

text \<open>
  \<^verbatim>\<open>formArrayRef.current.forEach((form) => form.current?.resetFields())\<close>.
  \<^verbatim>\<open>resetFields\<close> belongs to antd's form instance and is a parameter here; \<open>None\<close> is a
  ref whose \<^verbatim>\<open>current\<close> is undefined.
\<close>

definition resetAll :: "('f \<Rightarrow> 'f) \<Rightarrow> ('v, 'e, 'c, 'f) wizard \<Rightarrow> ('v, 'e, 'c, 'f) wizard" where
  "resetAll resetFields s = s\<lparr>formArrayRef := map (map_option resetFields) (formArrayRef s)\<rparr>"

text \<open>
  \<^verbatim>\<open>onFormFinish\<close> up to its \<^verbatim>\<open>await\<close>: everything that runs in the event that
  reports a step's data. The result is \<open>None\<close> after the early return, and otherwise the
  promise that \<^verbatim>\<open>onFinish(values)\<close> returned.
\<close>

definition onFormFinish_call ::
  "('v, 'e) stepsFormProps \<Rightarrow> string \<Rightarrow> 'v obj \<Rightarrow> ('v, 'e, 'c, 'f) wizard
     \<Rightarrow> 'e outcome option \<times> ('v, 'e, 'c, 'f) wizard" where
  "onFormFinish_call P name formData s =
     (let s1 = s\<lparr>formDataRef := js_set (formDataRef s) name formData\<rparr>
      in if \<not> lastStep P s1 \<or> onFinish P = None then (None, s1)
         else
           (let s2 = setLoading True s1;
                values = merge ([] # js_values (formDataRef s2))
            in (Some (the (onFinish P) values), s2\<lparr>finishCalls := finishCalls s2 @ [values]\<rparr>)))"

text \<open>
  \<^verbatim>\<open>onFormFinish\<close> from its \<^verbatim>\<open>await\<close> on: the rest of the try block, the catch
  block and the finally block, run when the promise has settled as \<open>r\<close>.
\<close>

definition onFormFinish_settle ::
  "('f \<Rightarrow> 'f) \<Rightarrow> ('v, 'e) stepsFormProps \<Rightarrow> 'e outcome
     \<Rightarrow> (('v, 'e, 'c, 'f) wizard, 'e, unit) comp" where
  "onFormFinish_settle resetFields P r =
     try_catch_finally
       (then_do (await r) (\<lambda>success.
          if truthy success
          then then_do (modify (setStep P 0)) (\<lambda>_. modify (resetAll resetFields))
          else returns ()))
       (\<lambda>error. modify (console_log error))
       (modify (setLoading False))"

text \<open>The whole of \<^verbatim>\<open>onFormFinish\<close>, for a promise that settles with nothing in between.\<close>

definition onFormFinish ::
  "('f \<Rightarrow> 'f) \<Rightarrow> ('v, 'e) stepsFormProps \<Rightarrow> string \<Rightarrow> 'v obj
     \<Rightarrow> (('v, 'e, 'c, 'f) wizard, 'e, unit) comp" where
  "onFormFinish resetFields P name formData s =
     (case onFormFinish_call P name formData s of
        (None, s1) \<Rightarrow> (Inr (), s1)
      | (Some r, s2) \<Rightarrow> onFormFinish_settle resetFields P r s2)"

section \<open>Vocabulary of the properties\<close>

text \<open>How a settled promise reads to the pipeline: as success, and as a thrown value.\<close>

fun signals_success :: "'e outcome \<Rightarrow> bool" where
  "signals_success (Resolves v) = truthy v"
| "signals_success (Rejects e) = False"

fun raised :: "'e outcome \<Rightarrow> 'e list" where
  "raised (Resolves v) = []"
| "raised (Rejects e) = [e]"

text \<open>
  The specification's reading of the merged record: the value of a key is taken from
  the last record, in the order given, that has the key.
\<close>

fun last_wins :: "'v obj list \<Rightarrow> string \<Rightarrow> 'v option" where
  "last_wins [] k = None"
| "last_wins (r # rs) k = (case last_wins rs k of Some v \<Rightarrow> Some v | None \<Rightarrow> js_get r k)"

text \<open>
  The specification's reading of navigation: the index that goNext or goPrevious asks
  for at index \<open>i\<close> of \<open>n\<close> steps, which is \<open>i\<close> itself at a boundary.
\<close>

fun nav_target :: "int \<Rightarrow> nat \<Rightarrow> nav \<Rightarrow> int" where
  "nav_target i n GoNext = (if i < int n - 1 then i + 1 else i)"
| "nav_target i n GoPrevious = (if i > 0 then i - 1 else i)"

definition in_range :: "nat \<Rightarrow> int \<Rightarrow> bool" where
  "in_range n v = (0 \<le> v \<and> v < int n)"

text \<open>A sequence of registrations, as \<^verbatim>\<open>formDom\<close> issues them for its children.\<close>

definition register_all ::
  "(string \<times> 'c) list \<Rightarrow> ('v, 'e, 'c, 'f) wizard \<Rightarrow> ('v, 'e, 'c, 'f) wizard" where
  "register_all regs s =
     foldl (\<lambda>s' (name, childrenFormProps). regForm name childrenFormProps s') s regs"

text \<open>A sequence of step reports, each running \<^verbatim>\<open>onFormFinish\<close> up to its await.\<close>

definition finish_all ::
  "('v, 'e) stepsFormProps \<Rightarrow> (string \<times> 'v obj) list \<Rightarrow> ('v, 'e, 'c, 'f) wizard
     \<Rightarrow> ('v, 'e, 'c, 'f) wizard" where
  "finish_all P evs s =
     foldl (\<lambda>s' (name, formData). snd (onFormFinish_call P name formData s')) s evs"

definition button_keys :: "button option list \<Rightarrow> string option list" where
  "button_keys bs = map (map_option btn_key) bs"

section \<open>Concrete wizards\<close>

text \<open>
  Field values are integers, thrown values are strings, a step's props are its title and
  a form instance is the number of fields the user has filled in, which
  \<^verbatim>\<open>resetFields\<close> brings back to zero. Steps without a name are registered under
  their index, as \<^verbatim>\<open>formDom\<close> does.
\<close>

definition reset :: "nat \<Rightarrow> nat" where
  "reset f = 0"

definition accept :: "int obj \<Rightarrow> string outcome" where
  "accept values = Resolves (Some True)"

definition decline :: "int obj \<Rightarrow> string outcome" where
  "decline values = Resolves None"

definition fail :: "int obj \<Rightarrow> string outcome" where
  "fail values = Rejects ''boom''"

definition uncontrolled :: "(int obj \<Rightarrow> string outcome) \<Rightarrow> (int, string) stepsFormProps" where
  "uncontrolled h =
     \<lparr> current = None, onCurrentChange = True, onFinish = Some h,
       submitter = SubmitterUndefined \<rparr>"

definition controlled ::
  "int \<Rightarrow> (int obj \<Rightarrow> string outcome) \<Rightarrow> (int, string) stepsFormProps" where
  "controlled c h =
     \<lparr> current = Some c, onCurrentChange = True, onFinish = Some h,
       submitter = SubmitterUndefined \<rparr>"

text \<open>Props whose \<^verbatim>\<open>submitButtonProps\<close> set \<^verbatim>\<open>loading\<close> themselves.\<close>

definition unguarded :: "(int, string) stepsFormProps" where
  "unguarded =
     (uncontrolled accept)
       \<lparr>submitter := Submitter
          \<lparr> submitButtonProps = Some \<lparr> bp_type = None, bp_loading = Some False \<rparr>,
            resetButtonProps = None \<rparr>\<rparr>"

definition one_step :: "(int, string, string, nat) wizard" where
  "one_step = (regForm ''0'' ''Only'' init)\<lparr>formArrayRef := [Some 4]\<rparr>"

definition two_steps :: "(int, string, string, nat) wizard" where
  "two_steps =
     (regForm ''B'' ''Second'' (regForm ''A'' ''First'' init))
       \<lparr>formArrayRef := [Some 4, Some 5]\<rparr>"

definition three_steps :: "(int, string, string, nat) wizard" where
  "three_steps =
     (regForm ''2'' ''Third'' (regForm ''1'' ''Second'' (regForm ''0'' ''First'' init)))
       \<lparr>formArrayRef := [Some 4, Some 5, Some 6]\<rparr>"

text \<open>
  Three steps, uncontrolled: step 0 reports \<^verbatim>\<open>{a: 1}\<close>, the wizard advances, step 1
  reports \<^verbatim>\<open>{b: 2}\<close>, the wizard advances to the last step.
\<close>

definition walk :: "(int obj \<Rightarrow> string outcome) \<Rightarrow> (int, string, string, nat) wizard" where
  "walk h =
     (let P = uncontrolled h;
          s1 = snd (onFormFinish reset P ''0'' [(''a'', 1)] three_steps);
          s2 = nextPage P s1;
          s3 = snd (onFormFinish reset P ''1'' [(''b'', 2)] s2)
      in nextPage P s3)"

text \<open>Two steps: A reports \<^verbatim>\<open>{x: 1}\<close> and the wizard advances to B.\<close>

definition a_finished :: "(int, string, string, nat) wizard" where
  "a_finished =
     nextPage (uncontrolled decline)
       (snd (onFormFinish reset (uncontrolled decline) ''A'' [(''x'', 1)] two_steps))"

text \<open>
  Three steps, controlled: the host shows step 1 first, which reports \<^verbatim>\<open>{x: 2}\<close>,
  and then step 0, which reports \<^verbatim>\<open>{x: 1}\<close>.
\<close>

definition b_then_a :: "(int, string, string, nat) wizard" where
  "b_then_a =
     snd (onFormFinish reset (controlled 0 decline) ''0'' [(''x'', 1)]
       (snd (onFormFinish reset (controlled 1 decline) ''1'' [(''x'', 2)] three_steps)))"

section \<open>Facts about the containers\<close>

lemma js_has_keys: "js_has m k = (k \<in> set (js_keys m))"
  by (induction m k rule: js_has.induct) (simp_all add: js_keys_def)

lemma js_keys_set:
  "js_keys (js_set m k v) = (if js_has m k then js_keys m else js_keys m @ [k])"
  by (induction m k v rule: js_set.induct) (simp_all add: js_keys_def)

lemma js_has_set: "js_has (js_set m k v) k' = (k' = k \<or> js_has m k')"
  by (auto simp: js_has_keys js_keys_set)

lemma js_get_set: "js_get (js_set m k v) k' = (if k' = k then Some v else js_get m k')"
  by (induction m k v rule: js_set.induct) auto

lemma js_get_delete: "js_get (js_delete m k) k' = (if k' = k then None else js_get m k')"
  by (induction m k rule: js_delete.induct) auto

lemma js_set_twice: "js_set (js_set m k v) k v' = js_set m k v'"
  by (induction m k v rule: js_set.induct) auto

lemma js_get_None: "js_get m k = None \<longleftrightarrow> \<not> js_has m k"
  by (induction m k rule: js_get.induct) simp_all

lemma assign_all_get:
  "distinct (js_keys src) \<Longrightarrow>
     js_get (assign_all target src) k =
       (case js_get src k of Some v \<Rightarrow> Some v | None \<Rightarrow> js_get target k)"
proof (induction target src rule: assign_all.induct)
  case (1 target)
  then show ?case by simp
next
  case (2 target k' v src)
  then have "js_get src k' = None"
    by (simp add: js_get_None js_has_keys js_keys_def)
  with 2 show ?case
    by (auto simp: js_keys_def js_get_set split: option.splits)
qed

lemma foldl_assign_all_get:
  "list_all (\<lambda>r. distinct (js_keys r)) rs \<Longrightarrow>
     js_get (foldl assign_all target rs) k =
       (case last_wins rs k of Some v \<Rightarrow> Some v | None \<Rightarrow> js_get target k)"
  by (induction rs arbitrary: target) (simp_all add: assign_all_get split: option.splits)

lemma merge_last_wins:
  "list_all (\<lambda>r. distinct (js_keys r)) rs \<Longrightarrow> js_get (merge rs) k = last_wins rs k"
  by (simp add: merge_def foldl_assign_all_get split: option.splits)

section \<open>Facts about the cursor and the pipeline\<close>

lemma step_update:
  "step P (s\<lparr>formDataRef := a\<rparr>) = step P s"
  "step P (s\<lparr>formArrayRef := b\<rparr>) = step P s"
  "step P (s\<lparr>loading := c\<rparr>) = step P s"
  "step P (s\<lparr>finishCalls := d\<rparr>) = step P s"
  "step P (s\<lparr>console := e\<rparr>) = step P s"
  "step P (s\<lparr>currentChanges := f\<rparr>) = step P s"
  by (simp_all add: step_def split: option.splits)

lemma lastStep_update: "lastStep P (s\<lparr>formDataRef := a\<rparr>) = lastStep P s"
  by (simp add: lastStep_def step_update)

lemma setStep_formArray: "formArray (setStep P v s) = formArray s"
  by (simp add: setStep_def Let_def split: option.splits)

lemma step_setStep: "step P (setStep P v s) = (case current P of None \<Rightarrow> v | Some c \<Rightarrow> c)"
  by (simp add: setStep_def step_def Let_def split: option.splits)

lemmas comp_defs = try_catch_finally_def then_do_def modify_def returns_def throws_def

lemma settle_result:
  "onFormFinish_settle rf P r s =
     (Inr (), (if signals_success r then resetAll rf (setStep P 0 s)
               else s\<lparr>console := console s @ raised r\<rparr>)\<lparr>loading := False\<rparr>)"
  by (cases r) (simp_all add: onFormFinish_settle_def comp_defs setLoading_def console_log_def)


lemma call_final:
  "lastStep P s \<Longrightarrow> onFinish P = Some h \<Longrightarrow>
     onFormFinish_call P name formData s =
       (Some (h (merge ([] # js_values (js_set (formDataRef s) name formData)))),
        s\<lparr>formDataRef := js_set (formDataRef s) name formData, loading := True,
          finishCalls := finishCalls s @
            [merge ([] # js_values (js_set (formDataRef s) name formData))]\<rparr>)"
  by (simp add: onFormFinish_call_def lastStep_update Let_def setLoading_def)

lemma call_formDataRef:
  "formDataRef (snd (onFormFinish_call P name formData s)) =
     js_set (formDataRef s) name formData"
  by (simp add: onFormFinish_call_def Let_def setLoading_def)

lemma navigate_formArray: "formArray (navigate P s e) = formArray s"
  by (cases e) (simp_all add: nextPage_def prePage_def setStep_formArray)

lemma navigate_step:
  "step P (navigate P s e) =
     (case current P of
        Some c \<Rightarrow> c
      | None \<Rightarrow>
          (case e of
             GoNext \<Rightarrow>
               if step P s > int (length (formArray s)) - 2 then step P s else step P s + 1
           | GoPrevious \<Rightarrow> if step P s < 1 then step P s else step P s - 1))"
  by (cases e; cases "current P")
     (simp_all add: nextPage_def prePage_def step_setStep, simp_all add: step_def)

lemma navigate_valid: "valid_cursor P s \<Longrightarrow> valid_cursor P (navigate P s e)"
  unfolding valid_cursor_def navigate_formArray navigate_step
  by (cases e; cases "current P") (auto simp: step_def)

lemma navigate_all_valid: "valid_cursor P s \<Longrightarrow> valid_cursor P (navigate_all P evs s)"
  unfolding navigate_all_def
  by (induction evs arbitrary: s) (simp_all add: navigate_valid)

lemma navigate_all_formArray: "formArray (navigate_all P evs s) = formArray s"
  unfolding navigate_all_def
  by (induction evs arbitrary: s) (simp_all add: navigate_formArray)

lemma navigate_delta: "\<bar>step P (navigate P s e) - step P s\<bar> \<le> 1"
  unfolding navigate_step
  by (cases e; cases "current P") (auto simp: step_def)

lemma nextPage_repeat:
  "int (length (formArray s)) - 1 \<le> step P s \<Longrightarrow>
     navigate_all P (replicate k GoNext) s = s"
  unfolding navigate_all_def
  by (induction k) (simp_all add: nextPage_def)

lemma regForm_valid: "valid_cursor P s \<Longrightarrow> valid_cursor P (regForm name c s)"
  by (auto simp: valid_cursor_def regForm_def step_def Let_def split: option.splits)

lemma finish_all_snoc:
  "finish_all P (evs @ [(name, formData)]) s =
     snd (onFormFinish_call P name formData (finish_all P evs s))"
  by (simp add: finish_all_def)

lemma finish_all_keys:
  "formDataRef s = [] \<Longrightarrow>
     js_keys (formDataRef (finish_all P evs s)) = rev (remdups (rev (map fst evs)))"
proof (induction evs rule: rev_induct)
  case Nil
  then show ?case by (simp add: finish_all_def js_keys_def)
next
  case (snoc e evs)
  obtain name formData where e: "e = (name, formData)" by (cases e)
  have "set (js_keys (formDataRef (finish_all P evs s))) = set (map fst evs)"
    using snoc by simp
  then show ?case
    using snoc unfolding e finish_all_snoc call_formDataRef js_keys_set js_has_keys
    by simp
qed

lemma navigate_changes:
  "currentChanges (navigate P s e) =
     (if onCurrentChange P \<and> nav_target (step P s) (length (formArray s)) e \<noteq> step P s
      then currentChanges s @ [nav_target (step P s) (length (formArray s)) e]
      else currentChanges s)"
  by (cases e) (auto simp: nextPage_def prePage_def setStep_def Let_def split: option.splits)

lemma navigate_step_target:
  "step P (navigate P s e) =
     (case current P of None \<Rightarrow> nav_target (step P s) (length (formArray s)) e | Some c \<Rightarrow> c)"
  unfolding navigate_step
  by (cases e; cases "current P") auto

lemma target_in_range:
  "valid_cursor P s \<Longrightarrow> nav_target (step P s) (length (formArray s)) e \<noteq> step P s \<Longrightarrow>
     in_range (length (formArray s)) (nav_target (step P s) (length (formArray s)) e)"
  by (cases e) (auto simp: valid_cursor_def in_range_def split: if_splits)

lemma navigate_all_requests:
  "valid_cursor P s \<Longrightarrow>
     \<exists>ys. currentChanges (navigate_all P evs s) = currentChanges s @ ys \<and>
          list_all (in_range (length (formArray s))) ys"
proof (induction evs arbitrary: s)
  case Nil
  then show ?case by (simp add: navigate_all_def)
next
  case (Cons e evs)
  have v: "valid_cursor P (navigate P s e)"
    using Cons.prems by (rule navigate_valid)
  obtain ys where ys: "currentChanges (navigate_all P evs (navigate P s e)) =
        currentChanges (navigate P s e) @ ys"
      "list_all (in_range (length (formArray s))) ys"
    using Cons.IH [OF v] by (auto simp: navigate_formArray)
  have "\<exists>xs. currentChanges (navigate P s e) = currentChanges s @ xs \<and>
      list_all (in_range (length (formArray s))) xs"
  proof (cases "onCurrentChange P \<and> nav_target (step P s) (length (formArray s)) e \<noteq> step P s")
    case True
    then show ?thesis
      using target_in_range [OF Cons.prems, of e] by (simp add: navigate_changes)
  next
    case False
    then have "currentChanges (navigate P s e) = currentChanges s"
      unfolding navigate_changes by auto
    then show ?thesis by simp
  qed
  then obtain xs where xs: "currentChanges (navigate P s e) = currentChanges s @ xs"
      "list_all (in_range (length (formArray s))) xs"
    by blast
  have "navigate_all P (e # evs) s = navigate_all P evs (navigate P s e)"
    by (simp add: navigate_all_def)
  then show ?case
    using xs ys by simp
qed

lemma navigate_all_requests_drop:
  assumes "valid_cursor P s"
  shows "take (length (currentChanges s)) (currentChanges (navigate_all P evs s)) = currentChanges s \<and>
     list_all (in_range (length (formArray s)))
       (drop (length (currentChanges s)) (currentChanges (navigate_all P evs s)))"
proof -
  obtain ys where "currentChanges (navigate_all P evs s) = currentChanges s @ ys"
      "list_all (in_range (length (formArray s))) ys"
    using navigate_all_requests [OF assms] by blast
  then show ?thesis by simp
qed

lemma unRegForm_step: "step P (unRegForm name s) = step P s"
  by (simp add: unRegForm_def step_def split: option.splits)

lemma regForm_formArray:
  "formArray (regForm name c s) =
     (if js_has (formMapRef s) name then formArray s else formArray s @ [name])"
  by (simp add: regForm_def Let_def)

lemma regForm_formMapRef: "formMapRef (regForm name c s) = js_set (formMapRef s) name c"
  by (simp add: regForm_def Let_def)

lemma register_all_snoc:
  "register_all (regs @ [(name, c)]) s = regForm name c (register_all regs s)"
  by (simp add: register_all_def)

lemma register_all_keys:
  "js_keys (formMapRef s) = formArray s \<Longrightarrow>
     js_keys (formMapRef (register_all regs s)) = formArray (register_all regs s)"
proof (induction regs rule: rev_induct)
  case Nil
  then show ?case by (simp add: register_all_def)
next
  case (snoc r regs)
  obtain name c where r: "r = (name, c)" by (cases r)
  show ?case
    using snoc unfolding r register_all_snoc
    by (simp add: regForm_formArray regForm_formMapRef js_keys_set)
qed

lemma register_all_keys_init:
  "js_keys (formMapRef (register_all regs (init :: ('v, 'e, 'c, 'f) wizard))) =
     formArray (register_all regs (init :: ('v, 'e, 'c, 'f) wizard))"
  by (rule register_all_keys) (simp add: init_def js_keys_def)

lemma register_all_formArray:
  "formArray (register_all regs (init :: ('v, 'e, 'c, 'f) wizard)) =
     rev (remdups (rev (map fst regs)))"
proof (induction regs rule: rev_induct)
  case Nil
  then show ?case by (simp add: register_all_def init_def)
next
  case (snoc r regs)
  let ?s = "register_all regs (init :: ('v, 'e, 'c, 'f) wizard)"
  obtain name c where r: "r = (name, c)" by (cases r)
  have "set (formArray ?s) = set (map fst regs)"
    using snoc by simp
  moreover have "js_keys (formMapRef ?s) = formArray ?s"
    by (rule register_all_keys_init)
  ultimately show ?case
    using snoc unfolding r register_all_snoc regForm_formArray js_has_keys
    by simp
qed

lemma register_all_props:
  "js_get (formMapRef (register_all regs init)) name = map_of (rev regs) name"
proof (induction regs rule: rev_induct)
  case Nil
  then show ?case by (simp add: register_all_def init_def)
next
  case (snoc r regs)
  obtain n c where r: "r = (n, c)" by (cases r)
  show ?case
    using snoc unfolding r register_all_snoc regForm_formMapRef
    by (simp add: js_get_set)
qed

lemmas run_defs =
  walk_def three_steps_def one_step_def two_steps_def a_finished_def b_then_a_def
  uncontrolled_def controlled_def unguarded_def accept_def decline_def fail_def reset_def
  onFormFinish_def onFormFinish_call_def onFormFinish_settle_def comp_defs
  lastStep_def step_def setStep_def setLoading_def nextPage_def prePage_def regForm_def
  unRegForm_def init_def Let_def merge_def js_values_def js_keys_def resetAll_def
  console_log_def navigate_all_def valid_cursor_def button_keys_def getActionButton_def
  next_button_def pre_def submit_def spread_def finish_all_def register_all_def

section \<open>The registry\<close>

text \<open>
  C6. Registration is an idempotent add. A name that has no props yet is appended to the
  ordered list, a name that has props leaves the list as it is, and the props map records
  the name. Registering a name a second time therefore keeps the list, and so the step
  count and the position of the name, as the first registration left them, and stores the
  props of the latest registration in place. From the initial state, any sequence of
  registrations lists every name once, in the order of first registration, each with the
  props it was last registered with.
\<close>

theorem regForm_idempotent:
  "formArray (regForm name c1 s) =
     (if js_has (formMapRef s) name then formArray s else formArray s @ [name]) \<and>
   js_has (formMapRef (regForm name c1 s)) n = (n = name \<or> js_has (formMapRef s) n) \<and>
   formArray (regForm name c2 (regForm name c1 s)) = formArray (regForm name c1 s) \<and>
   length (formArray (regForm name c2 (regForm name c1 s))) =
     length (formArray (regForm name c1 s)) \<and>
   js_get (formMapRef (regForm name c2 (regForm name c1 s))) name = Some c2 \<and>
   js_keys (formMapRef (regForm name c2 (regForm name c1 s))) =
     js_keys (formMapRef (regForm name c1 s)) \<and>
   regForm name c2 (regForm name c1 s) = regForm name c2 s \<and>
   formArray (register_all regs (init :: ('v, 'e, 'c, 'f) wizard)) =
     rev (remdups (rev (map fst regs))) \<and>
   js_get (formMapRef (register_all regs (init :: ('v, 'e, 'c, 'f) wizard))) n =
     map_of (rev regs) n"
  by (simp add: regForm_formArray regForm_formMapRef js_has_set js_get_set js_keys_set
        js_set_twice register_all_formArray register_all_props)
     (simp add: regForm_def Let_def js_has_set js_set_twice)

theorem regForm_idempotent_witness:
  "formArray (register_all [(''0'', ''First''), (''1'', ''Second''), (''2'', ''Third''),
       (''1'', ''Second, again'')] (init :: (int, string, string, nat) wizard)) =
     [''0'', ''1'', ''2''] \<and>
   js_get (formMapRef (register_all [(''0'', ''First''), (''1'', ''Second''), (''2'', ''Third''),
       (''1'', ''Second, again'')] (init :: (int, string, string, nat) wizard))) ''1'' =
     Some ''Second, again'' \<and>
   formArray (regForm ''1'' ''Second, again'' three_steps) = [''0'', ''1'', ''2''] \<and>
   formArray (regForm ''3'' ''Fourth'' three_steps) = [''0'', ''1'', ''2'', ''3''] \<and>
   js_get (formMapRef (regForm ''1'' ''Second, again'' three_steps)) ''1'' =
     Some ''Second, again''"
  using regForm_idempotent
      [where s = three_steps and name = "''1''" and ?c1.0 = "''Second''"
        and ?c2.0 = "''Second, again''" and n = "''1''"
        and regs = "[(''0'', ''First''), (''1'', ''Second''), (''2'', ''Third''),
                     (''1'', ''Second, again'')]",
       where ?'v = int and ?'e = string and ?'f = nat]
  by (simp add: three_steps_def regForm_def init_def Let_def)

text \<open>
  C3. Deregistering a step should remove that name from the ordered list and leave the
  other names. \<^verbatim>\<open>unRegForm\<close> filters with \<^verbatim>\<open>n === name\<close>: of three registered steps
  it keeps the one that is deregistered and drops the two others, while the props map
  loses the right entry. Registering the name again then lists it twice. The aggregated
  data and the props do lose the entry of that name and no other.
\<close>

theorem unRegForm_keeps_only_name:
  "formArray three_steps = [''0'', ''1'', ''2''] \<and>
   formArray (unRegForm ''1'' three_steps) = [''1''] \<and>
   js_keys (formMapRef (unRegForm ''1'' three_steps)) = [''0'', ''2''] \<and>
   formArray (regForm ''1'' ''Second'' (unRegForm ''1'' three_steps)) = [''1'', ''1''] \<and>
   js_get (formDataRef (unRegForm name s)) k =
     (if k = name then None else js_get (formDataRef s) k) \<and>
   js_get (formMapRef (unRegForm name s)) k =
     (if k = name then None else js_get (formMapRef s) k)"
  by (simp add: run_defs js_get_delete)

section \<open>Navigation\<close>

text \<open>
  C5, as the code has it. From a state whose cursor is a valid index of the list of names
  (or 0 when the list is empty), every sequence of goNext and goPrevious calls leaves the
  cursor valid and the list as it was, and so does a registration. One call asks for the
  index one step away, or for nothing at a boundary: an uncontrolled cursor takes that
  index, a controlled one stays with the host, and every index announced to the listener
  lies within the list. goNext at or beyond the last step changes nothing, however often
  it is repeated, and goPrevious at index 0 changes nothing. Deregistration never moves
  the cursor.
\<close>

theorem navigation_keeps_cursor_valid:
  assumes "valid_cursor P s"
  shows "valid_cursor P (navigate_all P evs s) \<and>
     valid_cursor P (regForm name c s) \<and>
     formArray (navigate_all P evs s) = formArray s \<and>
     \<bar>step P (navigate P s e) - step P s\<bar> \<le> 1 \<and>
     (int (length (formArray s)) - 1 \<le> step P s \<longrightarrow>
        nextPage P s = s \<and> navigate_all P (replicate k GoNext) s = s) \<and>
     (step P s = 0 \<longrightarrow> prePage P s = s) \<and>
     step P (navigate P s e) =
       (case current P of
          None \<Rightarrow> nav_target (step P s) (length (formArray s)) e
        | Some c \<Rightarrow> c) \<and>
     currentChanges (navigate P s e) =
       (if onCurrentChange P \<and> nav_target (step P s) (length (formArray s)) e \<noteq> step P s
        then currentChanges s @ [nav_target (step P s) (length (formArray s)) e]
        else currentChanges s) \<and>
     (nav_target (step P s) (length (formArray s)) e = step P s \<or>
      in_range (length (formArray s)) (nav_target (step P s) (length (formArray s)) e)) \<and>
     take (length (currentChanges s)) (currentChanges (navigate_all P evs s)) =
       currentChanges s \<and>
     list_all (in_range (length (formArray s)))
       (drop (length (currentChanges s)) (currentChanges (navigate_all P evs s))) \<and>
     step P (unRegForm name s) = step P s"
proof -
  have stays: "valid_cursor P (navigate_all P evs s)"
    using assms by (rule navigate_all_valid)
  have registered: "valid_cursor P (regForm name c s)"
    using assms by (rule regForm_valid)
  have at_last: "int (length (formArray s)) - 1 \<le> step P s \<longrightarrow>
      nextPage P s = s \<and> navigate_all P (replicate k GoNext) s = s"
    by (simp add: nextPage_def nextPage_repeat)
  have at_first: "step P s = 0 \<longrightarrow> prePage P s = s"
    by (simp add: prePage_def)
  have asked: "nav_target (step P s) (length (formArray s)) e = step P s \<or>
      in_range (length (formArray s)) (nav_target (step P s) (length (formArray s)) e)"
    using target_in_range [OF assms, of e] by blast
  have announced:
    "take (length (currentChanges s)) (currentChanges (navigate_all P evs s)) =
       currentChanges s \<and>
     list_all (in_range (length (formArray s)))
       (drop (length (currentChanges s)) (currentChanges (navigate_all P evs s)))"
    using assms by (rule navigate_all_requests_drop)
  have kept: "formArray (navigate_all P evs s) = formArray s"
    by (rule navigate_all_formArray)
  have delta: "\<bar>step P (navigate P s e) - step P s\<bar> \<le> 1"
    by (rule navigate_delta)
  have exact: "step P (navigate P s e) =
       (case current P of
          None \<Rightarrow> nav_target (step P s) (length (formArray s)) e
        | Some c \<Rightarrow> c)"
    by (rule navigate_step_target)
  have changes: "currentChanges (navigate P s e) =
       (if onCurrentChange P \<and> nav_target (step P s) (length (formArray s)) e \<noteq> step P s
        then currentChanges s @ [nav_target (step P s) (length (formArray s)) e]
        else currentChanges s)"
    by (rule navigate_changes)
  have unmoved: "step P (unRegForm name s) = step P s"
    by (rule unRegForm_step)
  show ?thesis
    by (intro conjI stays registered kept delta at_last at_first exact changes asked
          announced [THEN conjunct1] announced [THEN conjunct2] unmoved)
qed

theorem navigation_keeps_cursor_valid_witness:
  "valid_cursor (uncontrolled accept) one_step \<and>
   int (length (formArray one_step)) - 1 \<le> step (uncontrolled accept) one_step \<and>
   step (uncontrolled accept) one_step = 0 \<and>
   navigate_all (uncontrolled accept) [GoNext, GoPrevious] one_step = one_step \<and>
   valid_cursor (uncontrolled accept) (walk accept) \<and>
   int (length (formArray (walk accept))) - 1 \<le> step (uncontrolled accept) (walk accept) \<and>
   nextPage (uncontrolled accept) (walk accept) = walk accept \<and>
   navigate_all (uncontrolled accept) (replicate 5 GoNext) (walk accept) = walk accept \<and>
   step (uncontrolled accept)
     (navigate_all (uncontrolled accept) [GoPrevious, GoPrevious, GoPrevious, GoNext]
        (walk accept)) = 1 \<and>
   valid_cursor (uncontrolled accept)
     (navigate_all (uncontrolled accept) [GoPrevious, GoPrevious, GoPrevious, GoNext]
        (walk accept)) \<and>
   valid_cursor (controlled 1 accept) three_steps \<and>
   step (controlled 1 accept) (navigate (controlled 1 accept) three_steps GoNext) = 1 \<and>
   currentChanges (navigate (controlled 1 accept) three_steps GoNext) = [2] \<and>
   currentChanges (navigate_all (controlled 1 accept) [GoNext, GoPrevious, GoNext] three_steps)
     = [2, 0, 2]"
proof -
  have v1: "valid_cursor (uncontrolled accept) one_step"
    by (simp add: run_defs)
  have v3: "valid_cursor (uncontrolled accept) (walk accept)"
    by (simp add: run_defs)
  have vc: "valid_cursor (controlled 1 accept) three_steps"
    by (simp add: run_defs)
  have l1: "int (length (formArray one_step)) - 1 \<le> step (uncontrolled accept) one_step"
    by (simp add: run_defs)
  have l3: "int (length (formArray (walk accept))) - 1
      \<le> step (uncontrolled accept) (walk accept)"
    by (simp add: run_defs)
  have z1: "step (uncontrolled accept) one_step = 0"
    by (simp add: run_defs)
  have s3: "step (uncontrolled accept)
     (navigate_all (uncontrolled accept) [GoPrevious, GoPrevious, GoPrevious, GoNext]
        (walk accept)) = 1"
    by (simp add: run_defs)
  have c1: "currentChanges (navigate (controlled 1 accept) three_steps GoNext) = [2]"
    by (simp add: run_defs)
  have c3: "currentChanges
      (navigate_all (controlled 1 accept) [GoNext, GoPrevious, GoNext] three_steps) = [2, 0, 2]"
    by (simp add: run_defs)
  have sc: "step (controlled 1 accept) (navigate (controlled 1 accept) three_steps GoNext) = 1"
    by (simp add: step_def controlled_def)
  have n1: "navigate_all (uncontrolled accept) [GoNext, GoPrevious] one_step = one_step"
    by (simp add: run_defs)
  have n3: "nextPage (uncontrolled accept) (walk accept) = walk accept"
    using l3 by (simp add: nextPage_def)
  have r3: "navigate_all (uncontrolled accept) (replicate 5 GoNext) (walk accept) = walk accept"
    using l3 by (rule nextPage_repeat)
  show ?thesis
    using
      navigation_keeps_cursor_valid
        [OF v1, where evs = "[GoNext, GoPrevious]" and e = GoNext and k = 5
           and name = "''1''" and c = "''Second''"]
      navigation_keeps_cursor_valid
        [OF v3, where evs = "[GoPrevious, GoPrevious, GoPrevious, GoNext]" and e = GoNext
           and k = 5 and name = "''3''" and c = "''Fourth''"]
      navigation_keeps_cursor_valid
        [OF vc, where evs = "[GoNext, GoPrevious, GoNext]" and e = GoNext
           and k = 5 and name = "''3''" and c = "''Fourth''"]
    by (intro conjI v1 l1 z1 n1 v3 l3 n3 r3 s3 vc sc c1 c3) simp
qed

text \<open>
  C5, as stated, fails: the cursor is not always a valid index. On the last of three
  steps the cursor is 2; deregistering that step leaves the cursor at 2 and a list of one
  name. And a host that passes \<^verbatim>\<open>current = 5\<close> to a wizard of three steps puts the
  cursor at 5.
\<close>

theorem cursor_not_always_valid:
  "valid_cursor (uncontrolled accept) (walk accept) \<and>
   step (uncontrolled accept) (unRegForm ''2'' (walk accept)) = 2 \<and>
   length (formArray (unRegForm ''2'' (walk accept))) = 1 \<and>
   \<not> valid_cursor (uncontrolled accept) (unRegForm ''2'' (walk accept)) \<and>
   length (formArray three_steps) = 3 \<and>
   step (controlled 5 accept) three_steps = 5 \<and>
   \<not> valid_cursor (controlled 5 accept) three_steps"
  by (simp add: run_defs)

text \<open>
  C8, as the code has it. With a submitter that is not \<^verbatim>\<open>false\<close>, the buttons depend
  on the cursor and the step count only: below index 1 the wizard shows "next" alone,
  also when that step is the only one; at the last index, when it is not the first, it
  shows "pre" and "submit"; anywhere else it shows "pre" and "next".
\<close>

theorem getActionButton_by_position:
  assumes "submitter P \<noteq> SubmitterFalse"
  shows "button_keys (getActionButton P s) =
     (if step P s < 1 then [Some ''next'']
      else if step P s = int (length (formArray s)) - 1 then [Some ''pre'', Some ''submit'']
      else [Some ''pre'', Some ''next''])"
  using assms
  by (auto simp: button_keys_def getActionButton_def next_button_def pre_def submit_def
        spread_def Let_def split: option.splits)

theorem getActionButton_by_position_witness:
  "submitter (uncontrolled accept) \<noteq> SubmitterFalse \<and>
   button_keys (getActionButton (uncontrolled accept) three_steps) = [Some ''next''] \<and>
   button_keys (getActionButton (uncontrolled accept)
      (nextPage (uncontrolled accept) three_steps)) = [Some ''pre'', Some ''next''] \<and>
   button_keys (getActionButton (uncontrolled accept) (walk accept)) =
     [Some ''pre'', Some ''submit'']"
proof -
  have shown: "submitter (uncontrolled accept) \<noteq> SubmitterFalse"
    by (simp add: uncontrolled_def)
  show ?thesis
    using shown getActionButton_by_position [OF shown, of three_steps]
      getActionButton_by_position [OF shown, of "nextPage (uncontrolled accept) three_steps"]
      getActionButton_by_position [OF shown, of "walk accept"]
    by (simp add: run_defs)
qed

text \<open>
  C8, as stated, fails for a wizard of one step: its only step is the last step, and the
  buttons are "next" alone, not "pre" and "submit".
\<close>

theorem getActionButton_single_step:
  "submitter (uncontrolled accept) \<noteq> SubmitterFalse \<and>
   formArray one_step = [''0''] \<and>
   lastStep (uncontrolled accept) one_step \<and>
   button_keys (getActionButton (uncontrolled accept) one_step) = [Some ''next''] \<and>
   button_keys (getActionButton (uncontrolled accept) one_step) \<noteq>
     [Some ''pre'', Some ''submit'']"
  by (simp add: run_defs)

section \<open>The submission pipeline\<close>



text \<open>
  C2. On the last step with a handler whose promise resolves with a falsy value or
  rejects, \<^verbatim>\<open>onFormFinish\<close> returns normally, the cursor, the registered steps and the
  form instances are untouched, the aggregated data is what it was once the last step's
  data was stored, a rejection is logged to the console, and the submitting flag is
  false. The last two conjuncts are the finally block: however the promise settles, from
  whatever state, nothing is thrown to the caller and the flag ends false.
\<close>

theorem onFormFinish_failure_settles:
  assumes "lastStep P s" and "onFinish P = Some h"
    and "h (merge ([] # js_values (js_set (formDataRef s) name formData))) = r"
    and "\<not> signals_success r"
  shows "fst (onFormFinish rf P name formData s) = Inr () \<and>
     step P (snd (onFormFinish rf P name formData s)) = step P s \<and>
     formDataRef (snd (onFormFinish rf P name formData s)) =
       js_set (formDataRef s) name formData \<and>
     formArray (snd (onFormFinish rf P name formData s)) = formArray s \<and>
     formArrayRef (snd (onFormFinish rf P name formData s)) = formArrayRef s \<and>
     console (snd (onFormFinish rf P name formData s)) = console s @ raised r \<and>
     loading (snd (onFormFinish rf P name formData s)) = False \<and>
     fst (onFormFinish_settle rf P r' s') = Inr () \<and>
     loading (snd (onFormFinish_settle rf P r' s')) = False"
  using assms by (simp add: onFormFinish_def call_final settle_result step_update)

theorem onFormFinish_failure_settles_witness:
  "lastStep (uncontrolled fail) (walk fail) \<and>
   onFinish (uncontrolled fail) = Some fail \<and>
   \<not> signals_success
      (fail (merge ([] # js_values (js_set (formDataRef (walk fail)) ''2'' [(''c'', 3)])))) \<and>
   onFormFinish reset (uncontrolled fail) ''2'' [(''c'', 3)] (walk fail) =
     (Inr (),
      (walk fail)
        \<lparr> formDataRef := [(''0'', [(''a'', 1)]), (''1'', [(''b'', 2)]), (''2'', [(''c'', 3)])],
          finishCalls := [[(''a'', 1), (''b'', 2), (''c'', 3)]],
          console := [''boom''] \<rparr>) \<and>
   step (uncontrolled fail)
     (snd (onFormFinish reset (uncontrolled fail) ''2'' [(''c'', 3)] (walk fail))) = 2 \<and>
   loading (snd (onFormFinish reset (uncontrolled fail) ''2'' [(''c'', 3)] (walk fail))) = False \<and>
   lastStep (uncontrolled decline) (walk decline) \<and>
   onFormFinish reset (uncontrolled decline) ''2'' [(''c'', 3)] (walk decline) =
     (Inr (),
      (walk decline)
        \<lparr> formDataRef := [(''0'', [(''a'', 1)]), (''1'', [(''b'', 2)]), (''2'', [(''c'', 3)])],
          finishCalls := [[(''a'', 1), (''b'', 2), (''c'', 3)]] \<rparr>)"
proof -
  have last: "lastStep (uncontrolled fail) (walk fail)"
    by (simp add: run_defs)
  have handler: "onFinish (uncontrolled fail) = Some fail"
    by (simp add: uncontrolled_def)
  have failed: "\<not> signals_success
      (fail (merge ([] # js_values (js_set (formDataRef (walk fail)) ''2'' [(''c'', 3)]))))"
    by (simp add: fail_def)
  have last': "lastStep (uncontrolled decline) (walk decline)"
    by (simp add: run_defs)
  have handler': "onFinish (uncontrolled decline) = Some decline"
    by (simp add: uncontrolled_def)
  have declined: "\<not> signals_success
      (decline (merge ([] # js_values (js_set (formDataRef (walk decline)) ''2'' [(''c'', 3)]))))"
    by (simp add: decline_def)
  show ?thesis
    using last handler failed last'
      onFormFinish_failure_settles [OF last handler refl failed, of reset]
      onFormFinish_failure_settles [OF last' handler' refl declined, of reset]
    by (simp add: run_defs)
qed

text \<open>
  C1, as the code has it. On the last step with a handler whose promise resolves with a
  truthy value, \<^verbatim>\<open>onFormFinish\<close> returns normally, sets the cursor to 0 (under a
  controlled \<^verbatim>\<open>current\<close> the cursor stays with the host and 0 is only announced to the
  listener), calls \<^verbatim>\<open>resetFields\<close> on every form instance whose ref is set and leaves
  the submitting flag false. The aggregated data is kept: it is what it was once the last
  step's data was stored.
\<close>

theorem onFormFinish_success_keeps_data:
  assumes "lastStep P s" and "onFinish P = Some h"
    and "h (merge ([] # js_values (js_set (formDataRef s) name formData))) = r"
    and "signals_success r"
  shows "fst (onFormFinish rf P name formData s) = Inr () \<and>
     step P (snd (onFormFinish rf P name formData s)) =
       (case current P of None \<Rightarrow> 0 | Some c \<Rightarrow> c) \<and>
     currentChanges (snd (onFormFinish rf P name formData s)) =
       (if onCurrentChange P \<and> step P s \<noteq> 0 then currentChanges s @ [0]
        else currentChanges s) \<and>
     formArrayRef (snd (onFormFinish rf P name formData s)) =
       map (map_option rf) (formArrayRef s) \<and>
     formDataRef (snd (onFormFinish rf P name formData s)) =
       js_set (formDataRef s) name formData \<and>
     loading (snd (onFormFinish rf P name formData s)) = False"
  using assms
  by (simp add: onFormFinish_def call_final settle_result step_def setStep_def resetAll_def
        Let_def split: option.splits)

theorem onFormFinish_success_keeps_data_witness:
  "lastStep (uncontrolled accept) (walk accept) \<and>
   onFinish (uncontrolled accept) = Some accept \<and>
   signals_success
     (accept (merge ([] # js_values (js_set (formDataRef (walk accept)) ''2'' [(''c'', 3)])))) \<and>
   step (uncontrolled accept)
     (snd (onFormFinish reset (uncontrolled accept) ''2'' [(''c'', 3)] (walk accept))) = 0 \<and>
   currentChanges (snd (onFormFinish reset (uncontrolled accept) ''2'' [(''c'', 3)] (walk accept)))
     = [1, 2, 0] \<and>
   formArrayRef (snd (onFormFinish reset (uncontrolled accept) ''2'' [(''c'', 3)] (walk accept)))
     = [Some 0, Some 0, Some 0] \<and>
   formDataRef (snd (onFormFinish reset (uncontrolled accept) ''2'' [(''c'', 3)] (walk accept)))
     = [(''0'', [(''a'', 1)]), (''1'', [(''b'', 2)]), (''2'', [(''c'', 3)])] \<and>
   loading (snd (onFormFinish reset (uncontrolled accept) ''2'' [(''c'', 3)] (walk accept)))
     = False"
proof -
  have last: "lastStep (uncontrolled accept) (walk accept)"
    by (simp add: run_defs)
  have handler: "onFinish (uncontrolled accept) = Some accept"
    by (simp add: uncontrolled_def)
  have ok: "signals_success
      (accept (merge ([] # js_values (js_set (formDataRef (walk accept)) ''2'' [(''c'', 3)]))))"
    by (simp add: accept_def)
  show ?thesis
    using last handler ok
      onFormFinish_success_keeps_data [OF last handler refl ok, of reset]
    by (simp add: run_defs)
qed

text \<open>
  C1, as stated, fails on the specification's own scenario: three steps report
  \<^verbatim>\<open>{a: 1}\<close>, \<^verbatim>\<open>{b: 2}\<close> and \<^verbatim>\<open>{c: 3}\<close>, the handler is called with the merged
  record and resolves with \<^verbatim>\<open>true\<close>, the cursor is back at 0, and the aggregated data
  still holds the three entries.
\<close>

theorem onFormFinish_success_not_cleared:
  "fst (onFormFinish reset (uncontrolled accept) ''2'' [(''c'', 3)] (walk accept)) = Inr () \<and>
   finishCalls (snd (onFormFinish reset (uncontrolled accept) ''2'' [(''c'', 3)] (walk accept)))
     = [[(''a'', 1), (''b'', 2), (''c'', 3)]] \<and>
   step (uncontrolled accept)
     (snd (onFormFinish reset (uncontrolled accept) ''2'' [(''c'', 3)] (walk accept))) = 0 \<and>
   formDataRef (snd (onFormFinish reset (uncontrolled accept) ''2'' [(''c'', 3)] (walk accept)))
     = [(''0'', [(''a'', 1)]), (''1'', [(''b'', 2)]), (''2'', [(''c'', 3)])] \<and>
   formDataRef (snd (onFormFinish reset (uncontrolled accept) ''2'' [(''c'', 3)] (walk accept)))
     \<noteq> []"
  by (simp add: run_defs)

section \<open>The merged record\<close>

text \<open>
  C4, as the code has it. On the final submission the handler receives the merge of the
  aggregated entries taken in the iteration order of the map, which is the order in which
  the steps first reported. For records with distinct keys, the merged value of a key is
  that of the last entry, in that order, that has the key. When A reports \<^verbatim>\<open>{x: 1}\<close>
  and then B reports \<^verbatim>\<open>{x: 2, y: 3}\<close>, the merged record is \<^verbatim>\<open>{x: 2, y: 3}\<close>.
\<close>

theorem merge_in_insertion_order:
  assumes "lastStep P s" and "onFinish P = Some h"
    and "list_all (\<lambda>r. distinct (js_keys r))
           (js_values (js_set (formDataRef s) name formData))"
  shows "finishCalls (snd (onFormFinish_call P name formData s)) =
           finishCalls s @ [merge ([] # js_values (js_set (formDataRef s) name formData))] \<and>
         js_get (merge ([] # js_values (js_set (formDataRef s) name formData))) k =
           last_wins (js_values (js_set (formDataRef s) name formData)) k"
  using assms by (simp add: call_final merge_last_wins js_keys_def split: option.splits)

theorem merge_in_insertion_order_witness:
  "lastStep (uncontrolled decline) a_finished \<and>
   onFinish (uncontrolled decline) = Some decline \<and>
   list_all (\<lambda>r. distinct (js_keys r))
     (js_values (js_set (formDataRef a_finished) ''B'' [(''x'', 2), (''y'', 3)])) \<and>
   formDataRef a_finished = [(''A'', [(''x'', 1)])] \<and>
   finishCalls
     (snd (onFormFinish_call (uncontrolled decline) ''B'' [(''x'', 2), (''y'', 3)] a_finished))
     = [[(''x'', 2), (''y'', 3)]] \<and>
   js_get
     (merge ([] # js_values (js_set (formDataRef a_finished) ''B'' [(''x'', 2), (''y'', 3)])))
     ''x'' = Some 2"
proof -
  have last: "lastStep (uncontrolled decline) a_finished"
    by (simp add: run_defs)
  have handler: "onFinish (uncontrolled decline) = Some decline"
    by (simp add: uncontrolled_def)
  have wf: "list_all (\<lambda>r. distinct (js_keys r))
     (js_values (js_set (formDataRef a_finished) ''B'' [(''x'', 2), (''y'', 3)]))"
    by (simp add: run_defs)
  show ?thesis
    using last handler wf merge_in_insertion_order [OF last handler wf, of "''x''"]
    by (simp add: run_defs)
qed

text \<open>
  C4, as stated, fails when the steps do not report in the order of their registration.
  Steps 0, 1 and 2 are registered in this order; step 1 reports \<^verbatim>\<open>{x: 2}\<close> before
  step 0 reports \<^verbatim>\<open>{x: 1}\<close>; on the final submission the merged \<^verbatim>\<open>x\<close> is 1, the
  field of the step registered earlier.
\<close>

theorem merge_not_in_registration_order:
  "formArray b_then_a = [''0'', ''1'', ''2''] \<and>
   js_get (formDataRef b_then_a) ''0'' = Some [(''x'', 1)] \<and>
   js_get (formDataRef b_then_a) ''1'' = Some [(''x'', 2)] \<and>
   lastStep (controlled 2 decline) b_then_a \<and>
   finishCalls (snd (onFormFinish reset (controlled 2 decline) ''2'' [] b_then_a)) =
     [[(''x'', 1)]]"
  by (simp add: run_defs)

text \<open>
  C10. A report for a name that already has an entry in the aggregated data keeps the
  order of the entries and replaces the data of that name only. Starting from an empty
  map, the entries stand in the order in which the names first reported. The record
  handed to the handler is the merge of the entries in that order.
\<close>

theorem formDataRef_first_finish_order:
  "(js_has (formDataRef s) name \<longrightarrow>
      js_keys (formDataRef (snd (onFormFinish_call P name formData s))) =
        js_keys (formDataRef s)) \<and>
   js_get (formDataRef (snd (onFormFinish_call P name formData s))) k =
      (if k = name then Some formData else js_get (formDataRef s) k) \<and>
   js_keys (formDataRef (finish_all P evs (s0\<lparr>formDataRef := []\<rparr>))) =
      rev (remdups (rev (map fst evs))) \<and>
   (lastStep P s \<and> onFinish P = Some h \<longrightarrow>
      finishCalls (snd (onFormFinish_call P name formData s)) =
        finishCalls s @
          [merge ([] # js_values (formDataRef (snd (onFormFinish_call P name formData s))))])"
  by (simp add: call_formDataRef js_keys_set js_get_set finish_all_keys call_final)

text \<open>
  The witness: steps 0, 1, 2 are registered in this order; step 1 reports \<^verbatim>\<open>{x: 2}\<close>,
  step 0 reports \<^verbatim>\<open>{x: 1}\<close>, step 1 reports again, \<^verbatim>\<open>{x: 3}\<close>. The entries stay in
  the order 1, 0 and the merged \<^verbatim>\<open>x\<close> is 1: neither the registration order nor the
  order of the latest reports, both of which would give 3.
\<close>

theorem formDataRef_first_finish_order_witness:
  "js_has (formDataRef b_then_a) ''1'' \<and>
   lastStep (controlled 2 decline) b_then_a \<and>
   onFinish (controlled 2 decline) = Some decline \<and>
   formArray b_then_a = [''0'', ''1'', ''2''] \<and>
   js_keys (formDataRef b_then_a) = [''1'', ''0''] \<and>
   formDataRef (snd (onFormFinish_call (controlled 2 decline) ''1'' [(''x'', 3)] b_then_a)) =
     [(''1'', [(''x'', 3)]), (''0'', [(''x'', 1)])] \<and>
   js_keys (formDataRef (finish_all (controlled 1 decline)
       [(''1'', [(''x'', 2)]), (''0'', [(''x'', 1)]), (''1'', [(''x'', 3)])]
       (three_steps\<lparr>formDataRef := []\<rparr>))) = [''1'', ''0''] \<and>
   finishCalls (snd (onFormFinish_call (controlled 2 decline) ''1'' [(''x'', 3)] b_then_a)) =
     [[(''x'', 1)]]"
proof -
  have present: "js_has (formDataRef b_then_a) ''1''"
    by (simp add: run_defs)
  have last: "lastStep (controlled 2 decline) b_then_a"
    by (simp add: run_defs)
  have handler: "onFinish (controlled 2 decline) = Some decline"
    by (simp add: controlled_def)
  show ?thesis
    using present last handler
      formDataRef_first_finish_order
        [of b_then_a "''1''" "controlled 2 decline" "[(''x'', 3)]" "''1''"
          "[(''1'', [(''x'', 2)]), (''0'', [(''x'', 1)]), (''1'', [(''x'', 3)])]"
          three_steps decline]
    by (simp add: run_defs)
qed

section \<open>The submitting flag\<close>

text \<open>
  C9, as the code has it. A final submission sets the submitting flag before the handler
  is awaited, and the "next" and "submit" buttons carry the flag as their \<^verbatim>\<open>loading\<close>
  attribute unless \<^verbatim>\<open>submitButtonProps\<close> sets \<^verbatim>\<open>loading\<close> itself.
  \<^verbatim>\<open>onFormFinish\<close> does not read the flag: what it returns and which handler calls it
  makes are the same whatever the flag is.
\<close>

theorem loading_flag_on_buttons:
  "(lastStep P s \<and> onFinish P = Some h \<longrightarrow>
      loading (snd (onFormFinish_call P name formData s))) \<and>
   (submitter P \<noteq> SubmitterFalse \<and>
    (case submitButtonProps_of (submitter P) of None \<Rightarrow> True | Some p \<Rightarrow> bp_loading p = None)
      \<longrightarrow>
      map_option btn_loading (next_button P s) = Some (loading s) \<and>
      map_option btn_loading (submit P s) = Some (loading s)) \<and>
   fst (onFormFinish_call P name formData (s\<lparr>loading := b\<rparr>)) =
     fst (onFormFinish_call P name formData s) \<and>
   finishCalls (snd (onFormFinish_call P name formData (s\<lparr>loading := b\<rparr>))) =
     finishCalls (snd (onFormFinish_call P name formData s))"
  by (auto simp: call_final next_button_def submit_def spread_def onFormFinish_call_def
        Let_def lastStep_def step_def setLoading_def split: option.splits)

theorem loading_flag_on_buttons_witness:
  "lastStep (uncontrolled accept) (walk accept) \<and>
   onFinish (uncontrolled accept) = Some accept \<and>
   submitter (uncontrolled accept) \<noteq> SubmitterFalse \<and>
   submitButtonProps_of (submitter (uncontrolled accept)) = None \<and>
   loading (snd (onFormFinish_call (uncontrolled accept) ''2'' [(''c'', 3)] (walk accept))) \<and>
   map_option btn_loading (submit (uncontrolled accept)
      (snd (onFormFinish_call (uncontrolled accept) ''2'' [(''c'', 3)] (walk accept))))
     = Some True \<and>
   map_option btn_loading (next_button (uncontrolled accept)
      (snd (onFormFinish_call (uncontrolled accept) ''2'' [(''c'', 3)] (walk accept))))
     = Some True"
proof -
  have last: "lastStep (uncontrolled accept) (walk accept)"
    by (simp add: run_defs)
  have handler: "onFinish (uncontrolled accept) = Some accept"
    by (simp add: uncontrolled_def)
  have shown: "submitter (uncontrolled accept) \<noteq> SubmitterFalse"
    by (simp add: uncontrolled_def)
  have plain: "submitButtonProps_of (submitter (uncontrolled accept)) = None"
    by (simp add: uncontrolled_def)
  show ?thesis
    using last handler shown plain
      loading_flag_on_buttons
        [of "uncontrolled accept" "walk accept" accept "''2''" "[(''c'', 3)]" True]
      loading_flag_on_buttons
        [of "uncontrolled accept"
            "snd (onFormFinish_call (uncontrolled accept) ''2'' [(''c'', 3)] (walk accept))"
            accept "''2''" "[(''c'', 3)]" True]
    by (simp add: run_defs)
qed

text \<open>
  C9, as stated, fails. On the last step a report starts the handler and sets the flag;
  a second report that arrives before the first promise has settled starts the handler
  again. And with \<^verbatim>\<open>submitButtonProps = {loading: false}\<close> the "submit" button is not
  loading while the flag is set.
\<close>

theorem onFormFinish_reentrant:
  "lastStep (uncontrolled accept) (walk accept) \<and>
   loading (snd (onFormFinish_call (uncontrolled accept) ''2'' [(''c'', 3)] (walk accept))) \<and>
   finishCalls (snd (onFormFinish_call (uncontrolled accept) ''2'' [(''c'', 3)] (walk accept)))
     = [[(''a'', 1), (''b'', 2), (''c'', 3)]] \<and>
   finishCalls (snd (onFormFinish_call (uncontrolled accept) ''2'' [(''c'', 3)]
       (snd (onFormFinish_call (uncontrolled accept) ''2'' [(''c'', 3)] (walk accept)))))
     = [[(''a'', 1), (''b'', 2), (''c'', 3)], [(''a'', 1), (''b'', 2), (''c'', 3)]] \<and>
   loading (snd (onFormFinish_call unguarded ''2'' [(''c'', 3)] (walk accept))) \<and>
   map_option btn_loading
     (submit unguarded (snd (onFormFinish_call unguarded ''2'' [(''c'', 3)] (walk accept))))
     = Some False"
  by (simp add: run_defs)

end
